theory Spec2Isabelle
  imports Complex_Main
begin

section \<open>JavaScript strings\<close>

text \<open>
  A JavaScript string is a sequence of UTF-16 code units.  The cleaning expression of
  \<^verbatim>\<open>extractText\<close> names characters beyond Latin-1 (the dashes U+2014, U+2013 and the
  quotes U+2019, U+2018), so a code unit is a natural number and a string a list of them.
  \<open>js\<close> embeds an ASCII literal.
\<close>

type_synonym jsstring = "nat list"

definition js :: "string \<Rightarrow> jsstring" where
  "js s = map of_char s"

text \<open>
  The class \<^verbatim>\<open>\s\<close> of a regular expression and the characters removed by
  \<^verbatim>\<open>String.prototype.trim\<close> are the same set: WhiteSpace and LineTerminator of
  ECMAScript.
\<close>

definition isWhitespace :: "nat \<Rightarrow> bool" where
  "isWhitespace c \<longleftrightarrow>
     (9 \<le> c \<and> c \<le> 13) \<or> c = 32 \<or> c = 160 \<or> c = 5760 \<or> (8192 \<le> c \<and> c \<le> 8202) \<or>
     c = 8232 \<or> c = 8233 \<or> c = 8239 \<or> c = 8287 \<or> c = 12288 \<or> c = 65279"

text \<open>The class \<^verbatim>\<open>\w\<close>: \<^verbatim>\<open>[A-Za-z0-9_]\<close>.\<close>

definition isWordChar :: "nat \<Rightarrow> bool" where
  "isWordChar c \<longleftrightarrow>
     (48 \<le> c \<and> c \<le> 57) \<or> (65 \<le> c \<and> c \<le> 90) \<or> c = 95 \<or> (97 \<le> c \<and> c \<le> 122)"

definition trim :: "jsstring \<Rightarrow> jsstring" where
  "trim s = rev (dropWhile isWhitespace (rev (dropWhile isWhitespace s)))"

text \<open>
  \<^verbatim>\<open>s.substring(a, b)\<close>: both indices are clamped to the length and swapped when
  \<open>a > b\<close>; \<^verbatim>\<open>s.substring(a)\<close> runs to the end.  The offsets of a DOM range are
  unsigned, so the indices are naturals.
\<close>

definition substring :: "jsstring \<Rightarrow> nat \<Rightarrow> nat \<Rightarrow> jsstring" where
  "substring s a b =
     (let a' = min a (length s); b' = min b (length s);
          lo = min a' b'; hi = max a' b'
      in take (hi - lo) (drop lo s))"

definition substringFrom :: "jsstring \<Rightarrow> nat \<Rightarrow> jsstring" where
  "substringFrom s a = drop (min a (length s)) s"

text \<open>
  \<^verbatim>\<open>s.split(/\s+/)\<close>: the pieces between the maximal runs of whitespace; a run at
  the start or at the end of the string leaves an empty piece there, and the empty
  string gives one empty piece.
\<close>

function splitFrom :: "jsstring \<Rightarrow> jsstring \<Rightarrow> jsstring list" where
  "splitFrom cur [] = [rev cur]"
| "splitFrom cur (c # cs) =
     (if isWhitespace c then rev cur # splitFrom [] (dropWhile isWhitespace cs)
      else splitFrom (c # cur) cs)"
  by pat_completeness auto
termination
  by (relation "measure (\<lambda>(cur, s). length s)")
     (auto simp: length_dropWhile_le less_Suc_eq_le)

definition splitWhitespace :: "jsstring \<Rightarrow> jsstring list" where
  "splitWhitespace s = splitFrom [] s"

text \<open>
  The cleaning step \<^verbatim>\<open>w.replace(/[^...]/g, '')\<close> deletes every code unit outside
  its character class: \<^verbatim>\<open>\w\<close>, \<^verbatim>\<open>\s\<close>, the punctuation
  \<^verbatim>\<open>. , ! ? ; : ' " ( ) -\<close> and U+2014, U+2013, U+2019, U+2018.
\<close>

definition keptPunctuation :: "nat list" where
  "keptPunctuation = [46, 44, 33, 63, 59, 58, 39, 34, 40, 41, 8212, 8211, 45, 8217, 8216]"

definition keptChar :: "nat \<Rightarrow> bool" where
  "keptChar c \<longleftrightarrow> isWordChar c \<or> isWhitespace c \<or> c \<in> set keptPunctuation"

definition cleanWord :: "jsstring \<Rightarrow> jsstring" where
  "cleanWord w = filter keptChar w"

section \<open>Timing\<close>

text \<open>
  \<^verbatim>\<open>getInterval = () => Math.round(60000 / wpm)\<close>.  \<^verbatim>\<open>Math.round\<close> rounds to the
  nearest integer, a tie towards plus infinity, which is \<open>round\<close> of HOL.  For an
  integer rate between 1 and 60000 the quotient is either a multiple of one half, which
  a double holds exactly, or at least \<open>1 / (2 * wpm)\<close> away from every tie, so the
  double division rounds to the same integer as the exact one.
\<close>

definition getInterval :: "int \<Rightarrow> int" where
  "getInterval wpm = round (60000 / real_of_int wpm)"

text \<open>
  The playback effect arms one repeating timer,
  \<^verbatim>\<open>setInterval(advance, getInterval())\<close>, and every firing moves to the next word.
  The time a word stays on display is therefore the period of that timer, whatever the
  word is.
\<close>

definition displayDelay :: "jsstring \<Rightarrow> int \<Rightarrow> int" where
  "displayDelay w wpm = getInterval wpm"

text \<open>
  The delay as the specification words it, for comparison with \<open>displayDelay\<close>: the base
  delay times the first matching multiplier, rounded.
\<close>

definition spec_multiplier :: "jsstring \<Rightarrow> real" where
  "spec_multiplier w =
     (if w \<noteq> [] \<and> last w \<in> set (js ''.?!'') then 5 / 2
      else if w \<noteq> [] \<and> last w \<in> set (js '',;:'') then 3 / 2
      else if 8 \<le> length w then 6 / 5
      else 1)"

definition spec_delayMs :: "jsstring \<Rightarrow> int \<Rightarrow> int" where
  "spec_delayMs w wpm = round (real_of_int (round (60000 / real_of_int wpm)) * spec_multiplier w)"

section \<open>The state of the overlay\<close>

text \<open>
  A node of the rendered page is named by the path of child indices that leads to it
  from the root of the walk that found it: the common ancestor of the page range, or the
  body of the \<open>k\<close>-th content document.
\<close>

type_synonym path = "nat list"

datatype nodeRef = RangeNode path | BodyNode nat path

text \<open>The entries of \<^verbatim>\<open>wordElementsRef.current\<close>.\<close>

record wordElement =
  node :: nodeRef
  parent :: nodeRef
  word :: jsstring
  originalWord :: jsstring

text \<open>
  The state hooks and refs of \<^verbatim>\<open>RSVPOverlay\<close>.  \<open>imageStopIndex\<close> is \<open>-1\<close> when no
  stop is recorded.  The interval timer of \<^verbatim>\<open>timerRef\<close> is armed by the playback effect
  exactly while \<open>isPlaying\<close> holds and \<open>words\<close> is not empty, so it needs no field.
\<close>

record overlay =
  words :: "jsstring list"
  currentIndex :: int
  isPlaying :: bool
  wpm :: int
  extracting :: bool
  error :: "string option"
  stoppedAtImage :: bool
  imageStopIndex :: int
  wordElementsRef :: "wordElement list"
  lastWordBeforeImageRef :: "wordElement option"

definition initialOverlay :: "int \<Rightarrow> overlay" where
  "initialOverlay initialWpm =
     \<lparr>words = [], currentIndex = 0, isPlaying = False, wpm = initialWpm, extracting = False,
      error = None, stoppedAtImage = False, imageStopIndex = - 1, wordElementsRef = [],
      lastWordBeforeImageRef = None\<rparr>"

section \<open>Playback\<close>

text \<open>
  One firing of the interval timer.  The timer exists only while the overlay plays a
  non-empty list; otherwise nothing fires.
\<close>

definition tick :: "overlay \<Rightarrow> overlay" where
  "tick st =
     (if isPlaying st \<and> 0 < length (words st) then
        (if 0 < imageStopIndex st \<and> imageStopIndex st - 1 \<le> currentIndex st
         then st\<lparr>isPlaying := False, stoppedAtImage := True\<rparr>
         else if int (length (words st)) - 1 \<le> currentIndex st
         then st\<lparr>isPlaying := False\<rparr>
         else st\<lparr>currentIndex := currentIndex st + 1\<rparr>)
      else st)"

definition togglePlay :: "overlay \<Rightarrow> overlay" where
  "togglePlay st =
     (if stoppedAtImage st then st
      else (if int (length (words st)) - 1 \<le> currentIndex st then st\<lparr>currentIndex := 0\<rparr> else st)
             \<lparr>isPlaying := \<not> isPlaying st\<rparr>)"

definition skipBack :: "overlay \<Rightarrow> overlay" where
  "skipBack st = st\<lparr>currentIndex := max 0 (currentIndex st - 10)\<rparr>"

definition skipForward :: "overlay \<Rightarrow> overlay" where
  "skipForward st =
     (let maxIndex =
            (if 0 < imageStopIndex st
             then min (int (length (words st)) - 1) (imageStopIndex st - 1)
             else int (length (words st)) - 1)
      in st\<lparr>currentIndex := min maxIndex (currentIndex st + 10)\<rparr>)"

definition restart :: "overlay \<Rightarrow> overlay" where
  "restart st = st\<lparr>currentIndex := 0, isPlaying := False, stoppedAtImage := False\<rparr>"

definition decreaseWpm :: "overlay \<Rightarrow> overlay" where
  "decreaseWpm st = st\<lparr>wpm := max 100 (wpm st - 50)\<rparr>"

definition increaseWpm :: "overlay \<Rightarrow> overlay" where
  "increaseWpm st = st\<lparr>wpm := min 1000 (wpm st + 50)\<rparr>"

text \<open>
  The progress slider: \<^verbatim>\<open>min="0" max={Math.max(1, words.length - 1)}\<close> with
  \<^verbatim>\<open>onChange={(e) => setCurrentIndex(parseInt(e.target.value))}\<close>.  The browser keeps
  the value of a range input between its \<^verbatim>\<open>min\<close> and \<^verbatim>\<open>max\<close>; the handler stores
  what it is given.
\<close>

definition sliderValue :: "overlay \<Rightarrow> int \<Rightarrow> int" where
  "sliderValue st v = max 0 (min (max 1 (int (length (words st)) - 1)) v)"

definition seek :: "int \<Rightarrow> overlay \<Rightarrow> overlay" where
  "seek v st = st\<lparr>currentIndex := sliderValue st v\<rparr>"

text \<open>
  \<^verbatim>\<open>handleClose\<close>: the entry of \<^verbatim>\<open>wordElementsRef.current\<close> at \<open>currentIndex\<close> is
  passed to \<^verbatim>\<open>onCloseWithPosition\<close> when there is one (an index outside the array
  reads \<^verbatim>\<open>undefined\<close>); then \<^verbatim>\<open>onClose\<close> makes the host clear \<^verbatim>\<open>isOpen\<close>, whose
  effect clears the timer and \<open>isPlaying\<close>.
\<close>

definition arrayAt :: "'a list \<Rightarrow> int \<Rightarrow> 'a option" where
  "arrayAt xs i = (if 0 \<le> i \<and> i < int (length xs) then Some (xs ! nat i) else None)"

definition closePosition :: "overlay \<Rightarrow> wordElement option" where
  "closePosition st = arrayAt (wordElementsRef st) (currentIndex st)"

definition handleClose :: "overlay \<Rightarrow> wordElement option \<times> overlay" where
  "handleClose st = (closePosition st, st\<lparr>isPlaying := False\<rparr>)"

text \<open>
  The commands and timer firings of one session of the overlay, between its opening and
  its closing.
\<close>

datatype command =
  TogglePlay | Tick | SkipBack | SkipForward | Seek int | IncreaseWpm | DecreaseWpm | Restart

fun perform :: "command \<Rightarrow> overlay \<Rightarrow> overlay" where
  "perform TogglePlay st = togglePlay st"
| "perform Tick st = tick st"
| "perform SkipBack st = skipBack st"
| "perform SkipForward st = skipForward st"
| "perform (Seek v) st = seek v st"
| "perform IncreaseWpm st = increaseWpm st"
| "perform DecreaseWpm st = decreaseWpm st"
| "perform Restart st = restart st"

fun performAll :: "command list \<Rightarrow> overlay \<Rightarrow> overlay" where
  "performAll [] st = st"
| "performAll (c # cs) st = performAll cs (perform c st)"

section \<open>The rendered page\<close>

text \<open>
  The nodes a \<^verbatim>\<open>TreeWalker\<close> with \<^verbatim>\<open>NodeFilter.SHOW_ALL\<close> meets below its root:
  elements with their tag name and children, text nodes, and the other character data
  (comments), whose \<^verbatim>\<open>tagName\<close> is undefined.
\<close>

datatype node = Element string "node list" | TextNode jsstring | Comment jsstring

fun nodeType :: "node \<Rightarrow> nat" where
  "nodeType (Element t cs) = 1"
| "nodeType (TextNode s) = 3"
| "nodeType (Comment s) = 8"

fun tagName :: "node \<Rightarrow> string option" where
  "tagName (Element t cs) = Some t"
| "tagName (TextNode s) = None"
| "tagName (Comment s) = None"

fun textContent :: "node \<Rightarrow> jsstring" where
  "textContent (Element t cs) =
     concat (map (\<lambda>c. if nodeType c = 8 then [] else textContent c) cs)"
| "textContent (TextNode s) = s"
| "textContent (Comment s) = s"

text \<open>Tag names are ASCII; \<^verbatim>\<open>toLowerCase\<close> on them moves \<^verbatim>\<open>A-Z\<close> to \<^verbatim>\<open>a-z\<close>.\<close>

definition lowerChar :: "char \<Rightarrow> char" where
  "lowerChar c =
     (case map_of (zip ''ABCDEFGHIJKLMNOPQRSTUVWXYZ'' ''abcdefghijklmnopqrstuvwxyz'') c of
        None \<Rightarrow> c
      | Some d \<Rightarrow> d)"

definition toLowerCase :: "string \<Rightarrow> string" where
  "toLowerCase s = map lowerChar s"

text \<open>\<^verbatim>\<open>tags.includes(n.tagName?.toLowerCase())\<close>\<close>

definition tagIn :: "string list \<Rightarrow> node \<Rightarrow> bool" where
  "tagIn tags n = (case tagName n of None \<Rightarrow> False | Some t \<Rightarrow> toLowerCase t \<in> set tags)"

definition imageTags :: "string list" where
  "imageTags = [''img'', ''svg'', ''picture'']"

text \<open>
  A node filter sees the node, its position and the tag of its parent element, and
  answers \<^verbatim>\<open>FILTER_ACCEPT\<close> (\<open>True\<close>) or \<^verbatim>\<open>FILTER_REJECT\<close> (\<open>False\<close>).  A rejected
  node is skipped with everything below it.  \<open>walkerNodes\<close> is the sequence of nodes that
  successive calls of \<^verbatim>\<open>walker.nextNode()\<close> return: the accepted descendants of the
  root in document order, each with its path.  The filters are pure, so the loop that
  consumes the sequence may stop anywhere.
\<close>

type_synonym acceptNode = "path \<Rightarrow> string \<Rightarrow> node \<Rightarrow> bool"

fun treeWalk :: "acceptNode \<Rightarrow> string \<Rightarrow> path \<Rightarrow> node \<Rightarrow> (path \<times> node) list"
  and treeWalkChildren :: "acceptNode \<Rightarrow> string \<Rightarrow> path \<Rightarrow> nat \<Rightarrow> node list \<Rightarrow> (path \<times> node) list"
where
  "treeWalk acc ptag p (Element t cs) =
     (if acc p ptag (Element t cs) then (p, Element t cs) # treeWalkChildren acc t p 0 cs else [])"
| "treeWalk acc ptag p (TextNode s) = (if acc p ptag (TextNode s) then [(p, TextNode s)] else [])"
| "treeWalk acc ptag p (Comment s) = (if acc p ptag (Comment s) then [(p, Comment s)] else [])"
| "treeWalkChildren acc ptag p i [] = []"
| "treeWalkChildren acc ptag p i (c # cs) =
     treeWalk acc ptag (p @ [i]) c @ treeWalkChildren acc ptag p (Suc i) cs"

fun walkerNodes :: "acceptNode \<Rightarrow> node \<Rightarrow> (path \<times> node) list" where
  "walkerNodes acc (Element t cs) = treeWalkChildren acc t [] 0 cs"
| "walkerNodes acc (TextNode s) = []"
| "walkerNodes acc (Comment s) = []"

text \<open>
  The range built from the two CFI ranges of the current location.  Its containers are
  named by their paths from the root of the walk.  \<^verbatim>\<open>range.intersectsNode\<close> belongs to
  the browser; it is taken as given, a predicate on the nodes.
\<close>

record domRange =
  startContainer :: path
  startOffset :: nat
  endContainer :: path
  endOffset :: nat
  intersectsNode :: "path \<Rightarrow> bool"

text \<open>
  One entry of \<^verbatim>\<open>rendition.getContents()\<close>.  \<open>body\<close> is \<open>None\<close> when the document,
  its body or the window is missing.  The layout comes from the browser:
  \<open>rectTop\<close> and \<open>rectBottom\<close> are \<^verbatim>\<open>getBoundingClientRect()\<close> of the node at a path.
\<close>

record content =
  body :: "node option"
  innerHeight :: real
  rectTop :: "path \<Rightarrow> real"
  rectBottom :: "path \<Rightarrow> real"

text \<open>
  What \<^verbatim>\<open>extractText\<close> reads of the rendition.  \<open>Unresolved\<close> covers every way the
  page range is not used: no start or end CFI in the current location,
  \<^verbatim>\<open>getRange\<close> failing (caught and logged), or the two ranges lying in different
  documents.  \<open>Resolved rootEl rg\<close> is the range with the element the walker starts from.
\<close>

datatype cfiLocation = Unresolved | Resolved node domRange

record rendition =
  getContents :: "content list"
  scrolled :: bool
  currentLocation :: cfiLocation

section \<open>Extraction\<close>

text \<open>The local variables of \<^verbatim>\<open>extractText\<close> that the walks update.\<close>

record extraction =
  wordList :: "jsstring list"
  wordElements :: "wordElement list"
  hitImage :: bool
  imageStopIdx :: int

definition noWords :: extraction where
  "noWords = \<lparr>wordList = [], wordElements = [], hitImage = False, imageStopIdx = - 1\<rparr>"

definition pushWord :: "nodeRef \<Rightarrow> nodeRef \<Rightarrow> jsstring \<Rightarrow> extraction \<Rightarrow> extraction" where
  "pushWord n par w ex =
     (let cw = cleanWord w
      in if 0 < length cw
         then ex\<lparr>wordList := wordList ex @ [cw],
                 wordElements := wordElements ex @
                   [\<lparr>node = n, parent = par, word = cw, originalWord = w\<rparr>]\<rparr>
         else ex)"

text \<open>
  The text of a node, already cut to the range where it applies, is trimmed, split at
  whitespace, and each non-empty piece is cleaned and pushed.
\<close>

definition pushText :: "nodeRef \<Rightarrow> nodeRef \<Rightarrow> jsstring \<Rightarrow> extraction \<Rightarrow> extraction" where
  "pushText n par txt ex =
     (let t = trim txt
      in if t \<noteq> []
         then foldl (\<lambda>e w. pushWord n par w e) ex (filter (\<lambda>w. 0 < length w) (splitWhitespace t))
         else ex)"

text \<open>
  Partial text nodes at the edges of the page: the node that is the end container is cut
  at the end offset, then the node that is the start container is cut at the start
  offset.
\<close>

definition rangeText :: "domRange \<Rightarrow> path \<Rightarrow> jsstring \<Rightarrow> jsstring" where
  "rangeText rg p txt =
     (let t1 = (if p = endContainer rg then substring txt 0 (endOffset rg) else txt);
          t2 = (if p = startContainer rg then substringFrom t1 (startOffset rg) else t1)
      in t2)"

text \<open>
  The same cut as the specification words it for a node that is both containers, for
  comparison: the start offset first, the end offset second.
\<close>

definition spec_truncateBoth :: "jsstring \<Rightarrow> nat \<Rightarrow> nat \<Rightarrow> jsstring" where
  "spec_truncateBoth txt so eo = substring (substringFrom txt so) 0 eo"

subsection \<open>The walk over the page range\<close>

definition rangeAccept :: "domRange \<Rightarrow> acceptNode" where
  "rangeAccept rg p ptag n = (if tagIn [''script'', ''style''] n then False else intersectsNode rg p)"

definition rangeBoundary :: "domRange \<Rightarrow> path \<times> node \<Rightarrow> bool" where
  "rangeBoundary rg pn =
     (nodeType (snd pn) = 1 \<and> tagIn imageTags (snd pn) \<and> intersectsNode rg (fst pn))"

fun rangeLoop :: "domRange \<Rightarrow> (path \<times> node) list \<Rightarrow> extraction \<Rightarrow> extraction" where
  "rangeLoop rg [] ex = ex"
| "rangeLoop rg (pn # rest) ex =
     (if hitImage ex then ex
      else if rangeBoundary rg pn
      then ex\<lparr>hitImage := True, imageStopIdx := int (length (wordList ex))\<rparr>
      else if nodeType (snd pn) = 3
      then rangeLoop rg rest
             (pushText (RangeNode (fst pn)) (RangeNode (butlast (fst pn)))
                (rangeText rg (fst pn) (textContent (snd pn))) ex)
      else rangeLoop rg rest ex)"

definition segmentRange :: "node \<Rightarrow> domRange \<Rightarrow> extraction \<Rightarrow> extraction" where
  "segmentRange rootEl rg ex = rangeLoop rg (walkerNodes (rangeAccept rg) rootEl) ex"

subsection \<open>The walk over the visible sections\<close>

definition viewportAccept :: acceptNode where
  "viewportAccept p ptag n =
     (if toLowerCase ptag \<in> set [''script'', ''style'', ''noscript''] then False else True)"

text \<open>
  An image stops the walk in paginated mode always, in scrolled mode when its top lies
  in the viewport.  A text node is read in paginated mode always, in scrolled mode unless
  its parent lies wholly above or below the viewport.
\<close>

definition viewportBoundary :: "bool \<Rightarrow> content \<Rightarrow> path \<times> node \<Rightarrow> bool" where
  "viewportBoundary isPaginated c pn =
     (nodeType (snd pn) = 1 \<and> tagIn imageTags (snd pn) \<and>
      (isPaginated \<or> (0 \<le> rectTop c (fst pn) \<and> rectTop c (fst pn) \<le> innerHeight c)))"

definition textVisible :: "bool \<Rightarrow> content \<Rightarrow> path \<Rightarrow> bool" where
  "textVisible isPaginated c p =
     (isPaginated \<or> \<not> (rectBottom c (butlast p) < 0 \<or> innerHeight c < rectTop c (butlast p)))"

fun viewportLoop ::
  "bool \<Rightarrow> nat \<Rightarrow> content \<Rightarrow> (path \<times> node) list \<Rightarrow> extraction \<Rightarrow> extraction" where
  "viewportLoop isPaginated k c [] ex = ex"
| "viewportLoop isPaginated k c (pn # rest) ex =
     (if viewportBoundary isPaginated c pn
      then ex\<lparr>hitImage := True, imageStopIdx := int (length (wordList ex))\<rparr>
      else if nodeType (snd pn) = 3 \<and> textVisible isPaginated c (fst pn)
      then viewportLoop isPaginated k c rest
             (pushText (BodyNode k (fst pn)) (BodyNode k (butlast (fst pn)))
                (textContent (snd pn)) ex)
      else viewportLoop isPaginated k c rest ex)"

definition segmentViewport :: "bool \<Rightarrow> nat \<Rightarrow> content \<Rightarrow> extraction \<Rightarrow> extraction" where
  "segmentViewport isPaginated k c ex =
     (case body c of
        None \<Rightarrow> ex
      | Some b \<Rightarrow> viewportLoop isPaginated k c (walkerNodes viewportAccept b) ex)"

text \<open>
  \<^verbatim>\<open>for (const content of contents)\<close>: the \<^verbatim>\<open>break\<close> at an image leaves the inner
  \<^verbatim>\<open>while\<close> only, and the next content is walked with the same variables.
\<close>

fun viewportScan :: "bool \<Rightarrow> nat \<Rightarrow> content list \<Rightarrow> extraction \<Rightarrow> extraction" where
  "viewportScan isPaginated k [] ex = ex"
| "viewportScan isPaginated k (c # cs) ex =
     viewportScan isPaginated (Suc k) cs (segmentViewport isPaginated k c ex)"

subsection \<open>extractText\<close>

definition extractWalk :: "rendition \<Rightarrow> extraction" where
  "extractWalk r =
     (let isPaginated = \<not> scrolled r;
          ex1 = (if isPaginated
                 then (case currentLocation r of
                         Unresolved \<Rightarrow> noWords
                       | Resolved rootEl rg \<Rightarrow> segmentRange rootEl rg noWords)
                 else noWords)
      in if length (wordList ex1) = 0
         then viewportScan isPaginated 0 (getContents r) ex1
         else ex1)"

definition extractText :: "rendition option \<Rightarrow> overlay \<Rightarrow> overlay" where
  "extractText rend st =
     (case rend of
        None \<Rightarrow> st\<lparr>error := Some ''Reader not ready''\<rparr>
      | Some r \<Rightarrow>
          (let st1 = st\<lparr>extracting := True, error := None, stoppedAtImage := False,
                         imageStopIndex := - 1\<rparr>
           in if length (getContents r) = 0
              then st1\<lparr>error := Some ''No content available'', extracting := False\<rparr>
              else
                (let ex = extractWalk r;
                     st2 = st1\<lparr>wordElementsRef := wordElements ex\<rparr>
                 in if length (wordList ex) = 0
                    then st2\<lparr>error := Some ''No readable text found on this page'',
                             extracting := False\<rparr>
                    else
                      (if hitImage ex \<and> 0 < imageStopIdx ex
                       then st2\<lparr>lastWordBeforeImageRef :=
                                   arrayAt (wordElements ex) (imageStopIdx ex - 1),
                                 imageStopIndex := imageStopIdx ex\<rparr>
                       else st2)
                      \<lparr>words := wordList ex, currentIndex := 0, extracting := False\<rparr>)))"

section \<open>The overlay over its lifetime\<close>

text \<open>
  \<open>Open\<close> is the effect of \<^verbatim>\<open>isOpen\<close> becoming true: \<^verbatim>\<open>extractText()\<close>, then
  \<^verbatim>\<open>setIsPlaying(false)\<close> and \<^verbatim>\<open>setCurrentIndex(0)\<close>.  \<open>TryAgain\<close> is the button of the
  error view, which calls \<^verbatim>\<open>extractText\<close> alone.  \<open>Close\<close> is \<^verbatim>\<open>handleClose\<close>.
  The rendition is a prop and may differ from one opening to the next.
\<close>

definition openOverlay :: "rendition option \<Rightarrow> overlay \<Rightarrow> overlay" where
  "openOverlay rend st = (extractText rend st)\<lparr>isPlaying := False, currentIndex := 0\<rparr>"

datatype event = Open "rendition option" | TryAgain "rendition option" | Do command | Close

fun react :: "event \<Rightarrow> overlay \<Rightarrow> overlay" where
  "react (Open rend) st = openOverlay rend st"
| "react (TryAgain rend) st = extractText rend st"
| "react (Do c) st = perform c st"
| "react Close st = snd (handleClose st)"

fun reactAll :: "event list \<Rightarrow> overlay \<Rightarrow> overlay" where
  "reactAll [] st = st"
| "reactAll (e # es) st = reactAll es (react e st)"

section \<open>Notions used in the statements\<close>

text \<open>
  The original words that one text contributes: the non-empty pieces between whitespace
  whose cleaned form is not empty.  \<open>pushPieces\<close> appends them, cleaned, to the word list
  and their entries to the element list.
\<close>

definition pieces :: "jsstring \<Rightarrow> jsstring list" where
  "pieces txt =
     filter (\<lambda>w. 0 < length (cleanWord w))
       (filter (\<lambda>w. 0 < length w) (splitWhitespace (trim txt)))"

definition pushPieces :: "nodeRef \<Rightarrow> nodeRef \<Rightarrow> jsstring list \<Rightarrow> extraction \<Rightarrow> extraction" where
  "pushPieces n par ws ex =
     ex\<lparr>wordList := wordList ex @ map cleanWord ws,
        wordElements := wordElements ex @
          map (\<lambda>w. \<lparr>node = n, parent = par, word = cleanWord w, originalWord = w\<rparr>) ws\<rparr>"

text \<open>The mark an image leaves on the variables of the walk.\<close>

definition stopHere :: "extraction \<Rightarrow> extraction" where
  "stopHere ex = ex\<lparr>hitImage := True, imageStopIdx := int (length (wordList ex))\<rparr>"

text \<open>
  The two lists of the walk go together: the word list is the \<open>word\<close> fields of the
  element list.  A recorded stop lies within the word list.
\<close>

definition lockstep :: "extraction \<Rightarrow> bool" where
  "lockstep ex \<longleftrightarrow> wordList ex = map word (wordElements ex)"

definition stopBound :: "extraction \<Rightarrow> bool" where
  "stopBound ex \<longleftrightarrow>
     (hitImage ex \<longrightarrow> 0 \<le> imageStopIdx ex \<and> imageStopIdx ex \<le> int (length (wordList ex)))"

text \<open>The index points at a word of the list.\<close>

definition indexValid :: "overlay \<Rightarrow> bool" where
  "indexValid st \<longleftrightarrow> 0 \<le> currentIndex st \<and> currentIndex st < int (length (words st))"

subsection \<open>Sample pages\<close>

text \<open>A paragraph with the text ``The quick fox'', an image, and the text ``jumps''.\<close>

definition foxParagraph :: node where
  "foxParagraph =
     Element ''p'' [TextNode (js ''The quick fox''), Element ''img'' [], TextNode (js ''jumps'')]"

definition pageOf :: "node list \<Rightarrow> content" where
  "pageOf blocks =
     \<lparr>body = Some (Element ''body'' blocks), innerHeight = 800,
      rectTop = (\<lambda>p. 0), rectBottom = (\<lambda>p. 0)\<rparr>"

definition paginated :: "content list \<Rightarrow> rendition" where
  "paginated cs = \<lparr>getContents = cs, scrolled = False, currentLocation = Unresolved\<rparr>"

definition foxRendition :: rendition where
  "foxRendition = paginated [pageOf [foxParagraph]]"

text \<open>The same paragraph as the common ancestor of a page range that covers it all.\<close>

definition wholeRange :: domRange where
  "wholeRange =
     \<lparr>startContainer = [0], startOffset = 0, endContainer = [2], endOffset = 5,
      intersectsNode = (\<lambda>p. True)\<rparr>"

text \<open>A page of one word, and the overlay opened on it with the default rate.\<close>

definition helloRendition :: rendition where
  "helloRendition = paginated [pageOf [Element ''p'' [TextNode (js ''Hello'')]]]"

definition helloLoaded :: overlay where
  "helloLoaded = openOverlay (Some helloRendition) (initialOverlay 300)"

definition foxLoaded :: overlay where
  "foxLoaded = openOverlay (Some foxRendition) (initialOverlay 300)"

text \<open>The three-word page played until the timer stops at the image.\<close>

definition foxHalted :: overlay where
  "foxHalted = performAll [TogglePlay, Tick, Tick, Tick] foxLoaded"

text \<open>
  Two sections side by side: the three-word paragraph with its image, then one word; and
  an image alone, then one word.
\<close>

definition twoSections :: rendition where
  "twoSections =
     paginated [pageOf [foxParagraph], pageOf [Element ''p'' [TextNode (js ''Hello'')]]]"

text \<open>
  The same two sections in scrolled flow, where no page range is used; with a second
  image after the word of the second section; and in paginated flow with the page range
  over the paragraph.
\<close>

definition scrolledSections :: rendition where
  "scrolledSections =
     \<lparr>getContents = [pageOf [foxParagraph], pageOf [Element ''p'' [TextNode (js ''Hello'')]]],
      scrolled = True, currentLocation = Unresolved\<rparr>"

definition twoImageSections :: rendition where
  "twoImageSections =
     \<lparr>getContents =
        [pageOf [foxParagraph],
         pageOf [Element ''p'' [TextNode (js ''Hello''), Element ''img'' []]]],
      scrolled = True, currentLocation = Unresolved\<rparr>"

definition twoSectionsRange :: rendition where
  "twoSectionsRange =
     \<lparr>getContents = [pageOf [foxParagraph], pageOf [Element ''p'' [TextNode (js ''Hello'')]]],
      scrolled = False, currentLocation = Resolved foxParagraph wholeRange\<rparr>"

definition imageFirstRendition :: rendition where
  "imageFirstRendition =
     paginated [pageOf [Element ''img'' []], pageOf [Element ''p'' [TextNode (js ''Hello'')]]]"

text \<open>A range that lies inside one text node: from offset 2 to offset 5 of the node at path 0.\<close>

definition innerRange :: domRange where
  "innerRange =
     \<lparr>startContainer = [0], startOffset = 2, endContainer = [0], endOffset = 5,
      intersectsNode = (\<lambda>p. True)\<rparr>"

subsection \<open>What the overlay reports to its host\<close>

text \<open>
  The effect on \<open>stoppedAtImage\<close>: once the flag is set, the entry kept in
  \<^verbatim>\<open>lastWordBeforeImageRef\<close>, when there is one, is passed to \<^verbatim>\<open>onStopAtImage\<close>.
\<close>

definition stopPosition :: "overlay \<Rightarrow> wordElement option" where
  "stopPosition st = (if stoppedAtImage st then lastWordBeforeImageRef st else None)"

text \<open>
  The state stays coherent over the life of the overlay: the element list is empty or
  goes with the word list; a recorded stop lies within the word list, with the entry
  before it kept for the host; and the overlay is stopped at an image only when a stop is
  recorded.
\<close>

definition coherent :: "overlay \<Rightarrow> bool" where
  "coherent st \<longleftrightarrow>
     (wordElementsRef st = [] \<or> words st = map word (wordElementsRef st)) \<and>
     (0 < imageStopIndex st \<longrightarrow>
        words st = map word (wordElementsRef st) \<and>
        imageStopIndex st \<le> int (length (words st)) \<and>
        lastWordBeforeImageRef st = Some (wordElementsRef st ! nat (imageStopIndex st - 1))) \<and>
     (stoppedAtImage st \<longrightarrow> 0 < imageStopIndex st)"

text \<open>
  Two lives of the overlay on the three-word page: opened, played for one firing of the
  timer; and opened, played until the timer stops at the image.
\<close>

definition foxSession :: "event list" where
  "foxSession = [Open (Some foxRendition), Do TogglePlay, Do Tick]"

definition foxStopSession :: "event list" where
  "foxStopSession = [Open (Some foxRendition), Do TogglePlay, Do Tick, Do Tick, Do Tick]"

section \<open>Properties\<close>

subsection \<open>Evaluating the sample pages\<close>

lemma foldl_pushWord:
  "foldl (\<lambda>e w. pushWord n par w e) ex ws =
     pushPieces n par (filter (\<lambda>w. 0 < length (cleanWord w)) ws) ex"
  by (induction ws arbitrary: ex) (simp_all add: pushWord_def pushPieces_def Let_def)

lemma pushText_pieces: "pushText n par txt ex = pushPieces n par (pieces txt) ex"
  by (simp add: pushText_def Let_def foldl_pushWord pieces_def splitWhitespace_def pushPieces_def)

lemmas char_defs = js_def trim_def splitWhitespace_def isWhitespace_def cleanWord_def
  keptChar_def isWordChar_def keptPunctuation_def

lemmas tag_defs = tagIn_def imageTags_def toLowerCase_def lowerChar_def

lemmas page_defs = paginated_def pageOf_def noWords_def segmentViewport_def viewportAccept_def
  viewportBoundary_def textVisible_def pushPieces_def

lemma pieces_fox: "pieces (js ''The quick fox'') = [js ''The'', js ''quick'', js ''fox'']"
  by (simp add: pieces_def char_defs)

lemma pieces_jumps: "pieces (js ''jumps'') = [js ''jumps'']"
  by (simp add: pieces_def char_defs)

lemma pieces_hello: "pieces (js ''Hello'') = [js ''Hello'']"
  by (simp add: pieces_def char_defs)

lemma clean_words:
  "cleanWord (js ''The'') = js ''The''" "cleanWord (js ''quick'') = js ''quick''"
  "cleanWord (js ''fox'') = js ''fox''" "cleanWord (js ''Hello'') = js ''Hello''"
  by (simp_all add: char_defs)

lemma extractWalk_fox:
  "extractWalk foxRendition =
     \<lparr>wordList = [js ''The'', js ''quick'', js ''fox''],
      wordElements =
        [\<lparr>node = BodyNode 0 [0, 0], parent = BodyNode 0 [0], word = js ''The'',
          originalWord = js ''The''\<rparr>,
         \<lparr>node = BodyNode 0 [0, 0], parent = BodyNode 0 [0], word = js ''quick'',
          originalWord = js ''quick''\<rparr>,
         \<lparr>node = BodyNode 0 [0, 0], parent = BodyNode 0 [0], word = js ''fox'',
          originalWord = js ''fox''\<rparr>],
      hitImage = True, imageStopIdx = 3\<rparr>"
  by (simp add: extractWalk_def foxRendition_def page_defs pushText_pieces
      pieces_fox clean_words foxParagraph_def tag_defs)

lemma extractWalk_hello:
  "extractWalk helloRendition =
     \<lparr>wordList = [js ''Hello''],
      wordElements =
        [\<lparr>node = BodyNode 0 [0, 0], parent = BodyNode 0 [0], word = js ''Hello'',
          originalWord = js ''Hello''\<rparr>],
      hitImage = False, imageStopIdx = - 1\<rparr>"
  by (simp add: extractWalk_def helloRendition_def page_defs pushText_pieces
      pieces_hello clean_words tag_defs)

lemma foxLoaded_eval:
  "foxLoaded =
     \<lparr>words = [js ''The'', js ''quick'', js ''fox''], currentIndex = 0, isPlaying = False,
      wpm = 300, extracting = False, error = None, stoppedAtImage = False, imageStopIndex = 3,
      wordElementsRef = wordElements (extractWalk foxRendition),
      lastWordBeforeImageRef =
        Some \<lparr>node = BodyNode 0 [0, 0], parent = BodyNode 0 [0], word = js ''fox'',
              originalWord = js ''fox''\<rparr>\<rparr>"
  by (simp add: foxLoaded_def openOverlay_def extractText_def initialOverlay_def Let_def
      extractWalk_fox arrayAt_def)
     (simp add: foxRendition_def paginated_def)

lemma helloLoaded_eval:
  "helloLoaded =
     \<lparr>words = [js ''Hello''], currentIndex = 0, isPlaying = False,
      wpm = 300, extracting = False, error = None, stoppedAtImage = False, imageStopIndex = - 1,
      wordElementsRef = wordElements (extractWalk helloRendition),
      lastWordBeforeImageRef = None\<rparr>"
  by (simp add: helloLoaded_def openOverlay_def extractText_def initialOverlay_def Let_def
      extractWalk_hello arrayAt_def)
     (simp add: helloRendition_def paginated_def)


subsection \<open>Timing\<close>

text \<open>
  C1.  The specification gives each word the base delay \<open>round (60000 / wpm)\<close> times
  2.5, 1.5, 1.2 or 1 according to its last character and its length.  The overlay has no
  such multiplier: the timer period is the base delay for every word.  At 300 words per
  minute ``Hello.'' is shown for 200 ms where the specification asks for 500, and
  ``wonderful'' for 200 ms where it asks for 240; only words without a modifier, such as
  ``cat'', get the specified delay.
\<close>

theorem displayDelay_has_no_multiplier:
  "displayDelay (js ''Hello.'') 300 = 200 \<and> spec_delayMs (js ''Hello.'') 300 = 500 \<and>
   displayDelay (js ''wonderful'') 300 = 200 \<and> spec_delayMs (js ''wonderful'') 300 = 240 \<and>
   displayDelay (js ''cat'') 300 = 200 \<and> spec_delayMs (js ''cat'') 300 = 200"
  by (simp add: displayDelay_def getInterval_def spec_delayMs_def spec_multiplier_def js_def)

lemma spec_multiplier_nonneg: "0 \<le> spec_multiplier w"
  by (simp add: spec_multiplier_def)

text \<open>
  C9.  For a fixed word the display delay does not grow when the rate grows, over the
  whole range from 100 to 1500 words per minute.  The same holds of the delay with the
  multipliers of the specification.
\<close>

theorem displayDelay_antitone:
  assumes "100 \<le> w1" and "w1 \<le> w2" and "w2 \<le> 1500"
  shows "displayDelay w w2 \<le> displayDelay w w1 \<and> spec_delayMs w w2 \<le> spec_delayMs w w1"
proof -
  have "60000 / real_of_int w2 \<le> 60000 / real_of_int w1"
    using assms by (intro divide_left_mono) auto
  then have base: "round (60000 / real_of_int w2) \<le> round (60000 / real_of_int w1)"
    by (rule round_mono)
  then have "real_of_int (round (60000 / real_of_int w2)) * spec_multiplier w
      \<le> real_of_int (round (60000 / real_of_int w1)) * spec_multiplier w"
    using spec_multiplier_nonneg by (intro mult_right_mono) simp_all
  then have "spec_delayMs w w2 \<le> spec_delayMs w w1"
    unfolding spec_delayMs_def by (rule round_mono)
  with base show ?thesis
    by (simp add: displayDelay_def getInterval_def)
qed

theorem displayDelay_antitone_witness:
  "(100::int) \<le> 100 \<and> (100::int) \<le> 1500 \<and> (1500::int) \<le> 1500 \<and>
   displayDelay (js ''cat'') 1500 \<le> displayDelay (js ''cat'') 100 \<and>
   displayDelay (js ''cat'') 1500 = 40 \<and> displayDelay (js ''cat'') 100 = 600"
  using displayDelay_antitone [of 100 1500 "js ''cat''"]
  by (simp add: displayDelay_def getInterval_def)

text \<open>
  The delay falls in steps, not strictly: 1499 and 1500 words per minute both give 40 ms.
\<close>

lemma displayDelay_not_strict: "displayDelay w 1499 = 40 \<and> displayDelay w 1500 = 40"
  by (simp add: displayDelay_def getInterval_def round_def)

subsection \<open>Playback\<close>

lemmas playback_defs = togglePlay_def tick_def skipBack_def skipForward_def seek_def
  sliderValue_def restart_def increaseWpm_def decreaseWpm_def

lemma perform_keeps_stopped:
  "stoppedAtImage st \<Longrightarrow> c \<noteq> Restart \<Longrightarrow> stoppedAtImage (perform c st)"
  by (cases c) (simp_all add: playback_defs Let_def)

lemma performAll_keeps_stopped:
  "stoppedAtImage st \<Longrightarrow> Restart \<notin> set cs \<Longrightarrow> stoppedAtImage (performAll cs st)"
proof (induction cs arbitrary: st)
  case Nil
  then show ?case by simp
next
  case (Cons c cs)
  from Cons.prems have "stoppedAtImage (perform c st)"
    by (intro perform_keeps_stopped) auto
  with Cons show ?case by simp
qed

text \<open>
  C4.  Once the overlay has stopped at an image, play is refused: \<open>togglePlay\<close> returns
  the state as it is, index and play flag included.  No command of the session other than
  restart, and no firing of the timer, clears the stop, so play stays refused after any
  sequence of them.  Restart clears the stop, and play works again.  (Continuing past
  the image closes the overlay; it is not a command of the session.)
\<close>

theorem play_refused_after_image_stop:
  assumes "stoppedAtImage st" and "Restart \<notin> set cs"
  shows "togglePlay st = st \<and> stoppedAtImage (performAll cs st) \<and>
         togglePlay (performAll cs st) = performAll cs st \<and>
         \<not> stoppedAtImage (restart (performAll cs st)) \<and>
         isPlaying (togglePlay (restart (performAll cs st)))"
proof -
  have "stoppedAtImage (performAll cs st)"
    using assms by (rule performAll_keeps_stopped)
  then show ?thesis
    using assms(1) by (simp add: togglePlay_def restart_def)
qed

lemma foxHalted_eval: "foxHalted = foxLoaded\<lparr>currentIndex := 2, stoppedAtImage := True\<rparr>"
  by (simp add: foxHalted_def foxLoaded_eval togglePlay_def tick_def)

theorem play_refused_after_image_stop_witness:
  "stoppedAtImage foxHalted \<and> Restart \<notin> set [SkipBack, TogglePlay, Tick] \<and>
   togglePlay foxHalted = foxHalted \<and>
   stoppedAtImage (performAll [SkipBack, TogglePlay, Tick] foxHalted) \<and>
   togglePlay (performAll [SkipBack, TogglePlay, Tick] foxHalted) =
     performAll [SkipBack, TogglePlay, Tick] foxHalted"
proof -
  have h: "stoppedAtImage foxHalted"
    by (simp add: foxHalted_eval)
  have r: "Restart \<notin> set [SkipBack, TogglePlay, Tick]"
    by simp
  show ?thesis
    using h r play_refused_after_image_stop [OF h r] by blast
qed

lemma openOverlay_loaded:
  assumes "error (openOverlay rend st) = None"
  shows "\<not> stoppedAtImage (openOverlay rend st) \<and> \<not> isPlaying (openOverlay rend st) \<and>
         currentIndex (openOverlay rend st) = 0"
  using assms
  by (auto simp: openOverlay_def extractText_def Let_def split: option.splits if_splits)

text \<open>
  C6.  When the overlay has loaded a page of exactly one word, the index is 0; play keeps
  it at 0 and starts the timer; the first firing of the timer stops playback with the
  index still 0.  The stop is the end of the list, or the stop at an image when an image
  follows the word.  In general, play at or beyond the last index moves the index to 0
  before it starts.
\<close>

theorem single_word_playback:
  assumes "error (openOverlay rend st) = None"
    and "length (words (openOverlay rend st)) = 1"
  shows "currentIndex (openOverlay rend st) = 0 \<and>
         currentIndex (togglePlay (openOverlay rend st)) = 0 \<and>
         isPlaying (togglePlay (openOverlay rend st)) \<and>
         currentIndex (tick (togglePlay (openOverlay rend st))) = 0 \<and>
         \<not> isPlaying (tick (togglePlay (openOverlay rend st))) \<and>
         (stoppedAtImage (tick (togglePlay (openOverlay rend st))) \<longleftrightarrow>
            imageStopIndex (openOverlay rend st) = 1) \<and>
         (\<forall>s. \<not> stoppedAtImage s \<and> int (length (words s)) - 1 \<le> currentIndex s \<longrightarrow>
            currentIndex (togglePlay s) = 0 \<and> isPlaying (togglePlay s) = (\<not> isPlaying s))"
proof -
  let ?s = "openOverlay rend st"
  have a: "\<not> stoppedAtImage ?s" "\<not> isPlaying ?s" "currentIndex ?s = 0"
    using openOverlay_loaded [OF assms(1)] by simp_all
  show ?thesis
    using a assms(2) by (auto simp: togglePlay_def tick_def)
qed

theorem single_word_playback_witness:
  "error helloLoaded = None \<and> length (words helloLoaded) = 1 \<and>
   currentIndex (togglePlay helloLoaded) = 0 \<and> isPlaying (togglePlay helloLoaded) \<and>
   currentIndex (tick (togglePlay helloLoaded)) = 0 \<and>
   \<not> isPlaying (tick (togglePlay helloLoaded)) \<and>
   \<not> stoppedAtImage (tick (togglePlay helloLoaded)) \<and>
   currentIndex (togglePlay (seek 2 foxLoaded)) = 0"
  using single_word_playback [of "Some helloRendition" "initialOverlay 300"]
  by (simp add: helloLoaded_def [symmetric])
     (simp add: helloLoaded_eval foxLoaded_eval seek_def sliderValue_def)

text \<open>
  C7.  The only timer of the overlay is the playback timer, and its firing never changes
  the rate: after any number of firings the rate is what it was.  The training setting
  is stored by the settings panel and never read by the overlay; the rate changes by the
  two rate commands only, by 50, within 100 and 1000.
\<close>

theorem timer_never_changes_wpm:
  "wpm (performAll (replicate n Tick) st) = wpm st \<and>
   wpm (increaseWpm st) = min 1000 (wpm st + 50) \<and>
   wpm (decreaseWpm st) = max 100 (wpm st - 50)"
proof -
  have "wpm (performAll (replicate n Tick) st) = wpm st"
    by (induction n arbitrary: st) (simp_all add: tick_def)
  then show ?thesis
    by (simp add: increaseWpm_def decreaseWpm_def)
qed

text \<open>
  C8.  Skipping back, skipping forward, restart, play and the timer keep the index within
  the list, as the claim says; the slider does not.  Its handler stores the slider value
  unclamped, and the slider runs up to \<open>max 1 (length - 1)\<close>.  On the loaded page of one
  word, where the index is 0 and in range, moving the slider to its end stores the index
  1, the length of the list; skipping forward and the timer, on the same state, keep the
  index at 0.
\<close>

theorem seek_reaches_length_on_one_word:
  "words helloLoaded = [js ''Hello''] \<and> indexValid helloLoaded \<and>
   sliderValue helloLoaded 1 = 1 \<and>
   currentIndex (seek 1 helloLoaded) = 1 \<and>
   currentIndex (seek 1 helloLoaded) = int (length (words (seek 1 helloLoaded))) \<and>
   \<not> indexValid (seek 1 helloLoaded) \<and>
   currentIndex (skipForward helloLoaded) = 0 \<and> indexValid (skipForward helloLoaded) \<and>
   currentIndex (tick (togglePlay helloLoaded)) = 0 \<and>
   indexValid (tick (togglePlay helloLoaded))"
  by (simp add: helloLoaded_eval indexValid_def seek_def sliderValue_def skipForward_def
      togglePlay_def tick_def)

text \<open>
  What the other commands do to the index: skipping back stops at 0, skipping forward
  stops at the last index or, when a stop is recorded, at the index before it, and
  restart sets 0.
\<close>

lemma index_commands_clamp:
  "currentIndex (skipBack st) = max 0 (currentIndex st - 10) \<and>
   currentIndex (skipForward st) =
     min (if 0 < imageStopIndex st
          then min (int (length (words st)) - 1) (imageStopIndex st - 1)
          else int (length (words st)) - 1)
       (currentIndex st + 10) \<and>
   currentIndex (restart st) = 0"
  by (simp add: skipBack_def skipForward_def restart_def Let_def)

text \<open>
  On a non-empty list with the index in range, skipping back, skipping forward, restart,
  play or pause, and a firing of the timer keep the index in range; seeking keeps it in
  range on a list of two words or more.
\<close>

lemma index_stays_valid:
  assumes "words st \<noteq> []" and "indexValid st"
  shows "indexValid (skipBack st) \<and> indexValid (skipForward st) \<and> indexValid (restart st) \<and>
         indexValid (togglePlay st) \<and> indexValid (tick st) \<and>
         0 \<le> currentIndex (seek v st) \<and>
         currentIndex (seek v st) \<le> max 1 (int (length (words st)) - 1) \<and>
         (2 \<le> length (words st) \<longrightarrow> indexValid (seek v st))"
proof -
  have len: "0 < int (length (words st))"
    using assms(1) by simp
  have "indexValid (skipBack st)"
    using assms(2) len by (auto simp: indexValid_def skipBack_def)
  moreover have "indexValid (skipForward st)"
    using assms(2) len by (auto simp: indexValid_def skipForward_def Let_def)
  moreover have "indexValid (restart st)"
    using len by (simp add: indexValid_def restart_def)
  moreover have "indexValid (togglePlay st)"
    using assms(2) len by (auto simp: indexValid_def togglePlay_def)
  moreover have "indexValid (tick st)"
    using assms(2) len by (auto simp: indexValid_def tick_def)
  moreover have "0 \<le> currentIndex (seek v st)"
    by (simp add: seek_def sliderValue_def)
  moreover have "currentIndex (seek v st) \<le> max 1 (int (length (words st)) - 1)"
    by (simp add: seek_def sliderValue_def)
  moreover have "2 \<le> length (words st) \<longrightarrow> indexValid (seek v st)"
    by (auto simp: indexValid_def seek_def sliderValue_def)
  ultimately show ?thesis by blast
qed

lemma index_stays_valid_on_fox:
  "words foxLoaded \<noteq> [] \<and> indexValid foxLoaded \<and>
   indexValid (skipBack foxLoaded) \<and> indexValid (skipForward foxLoaded) \<and>
   indexValid (restart foxLoaded) \<and> indexValid (togglePlay foxLoaded) \<and>
   indexValid (tick foxLoaded) \<and> 2 \<le> length (words foxLoaded) \<and>
   indexValid (seek 7 foxLoaded) \<and> currentIndex (seek 7 foxLoaded) = 2 \<and>
   currentIndex (skipForward foxLoaded) = 2"
  using index_stays_valid [of foxLoaded 7]
  by (simp add: foxLoaded_eval indexValid_def seek_def sliderValue_def skipForward_def)

text \<open>
  On the empty list the commands are not blocked: skipping forward before any page is
  loaded puts the index at \<open>-1\<close>.
\<close>

lemma skipForward_on_empty: "currentIndex (skipForward (initialOverlay 300)) = - 1"
  by (simp add: skipForward_def initialOverlay_def)


subsection \<open>The walks\<close>

lemma pushText_hitImage: "hitImage (pushText n par txt ex) = hitImage ex"
  by (simp add: pushText_pieces pushPieces_def)

lemma pushText_imageStopIdx: "imageStopIdx (pushText n par txt ex) = imageStopIdx ex"
  by (simp add: pushText_pieces pushPieces_def)

lemma rangeLoop_stop:
  "\<not> hitImage ex \<Longrightarrow> \<forall>x\<in>set pre. \<not> rangeBoundary rg x \<Longrightarrow> rangeBoundary rg b \<Longrightarrow>
   rangeLoop rg (pre @ b # post) ex = stopHere (rangeLoop rg pre ex)"
proof (induction pre arbitrary: ex)
  case Nil
  then show ?case by (simp add: stopHere_def)
next
  case (Cons x pre)
  then show ?case by (simp add: pushText_hitImage)
qed

lemma viewportLoop_stop:
  "\<forall>x\<in>set pre. \<not> viewportBoundary pag c x \<Longrightarrow> viewportBoundary pag c b \<Longrightarrow>
   viewportLoop pag k c (pre @ b # post) ex = stopHere (viewportLoop pag k c pre ex)"
proof (induction pre arbitrary: ex)
  case Nil
  then show ?case by (simp add: stopHere_def)
next
  case (Cons x pre)
  then show ?case by simp
qed

lemma rangeLoop_hitImage:
  "hitImage (rangeLoop rg ns ex) \<longleftrightarrow> hitImage ex \<or> (\<exists>x\<in>set ns. rangeBoundary rg x)"
  by (induction ns arbitrary: ex) (auto simp: pushText_hitImage)

lemma viewportLoop_hitImage:
  "hitImage (viewportLoop pag k c ns ex) \<longleftrightarrow>
     hitImage ex \<or> (\<exists>x\<in>set ns. viewportBoundary pag c x)"
  by (induction ns arbitrary: ex) (auto simp: pushText_hitImage)

text \<open>Lockstep of the two lists, and the bound on the recorded stop.\<close>

lemma pushText_lockstep: "lockstep ex \<Longrightarrow> lockstep (pushText n par txt ex)"
  by (simp add: lockstep_def pushText_pieces pushPieces_def comp_def)

lemma pushText_stopBound: "stopBound ex \<Longrightarrow> stopBound (pushText n par txt ex)"
  by (auto simp: stopBound_def pushText_pieces pushPieces_def)

lemma rangeLoop_inv:
  "lockstep ex \<and> stopBound ex \<Longrightarrow> lockstep (rangeLoop rg ns ex) \<and> stopBound (rangeLoop rg ns ex)"
proof (induction ns arbitrary: ex)
  case Nil
  then show ?case by simp
next
  case (Cons x ns)
  have "lockstep (ex\<lparr>hitImage := True, imageStopIdx := int (length (wordList ex))\<rparr>) \<and>
        stopBound (ex\<lparr>hitImage := True, imageStopIdx := int (length (wordList ex))\<rparr>)"
    using Cons.prems by (simp add: lockstep_def stopBound_def)
  then show ?case
    using Cons by (simp add: pushText_lockstep pushText_stopBound)
qed

lemma viewportLoop_inv:
  "lockstep ex \<and> stopBound ex \<Longrightarrow>
   lockstep (viewportLoop pag k c ns ex) \<and> stopBound (viewportLoop pag k c ns ex)"
proof (induction ns arbitrary: ex)
  case Nil
  then show ?case by simp
next
  case (Cons x ns)
  have "lockstep (ex\<lparr>hitImage := True, imageStopIdx := int (length (wordList ex))\<rparr>) \<and>
        stopBound (ex\<lparr>hitImage := True, imageStopIdx := int (length (wordList ex))\<rparr>)"
    using Cons.prems by (simp add: lockstep_def stopBound_def)
  then show ?case
    using Cons by (simp add: pushText_lockstep pushText_stopBound)
qed

lemma viewportScan_inv:
  "lockstep ex \<and> stopBound ex \<Longrightarrow>
   lockstep (viewportScan pag k cs ex) \<and> stopBound (viewportScan pag k cs ex)"
proof (induction cs arbitrary: ex k)
  case Nil
  then show ?case by simp
next
  case (Cons c cs)
  have "lockstep (segmentViewport pag k c ex) \<and> stopBound (segmentViewport pag k c ex)"
    using Cons.prems viewportLoop_inv by (simp add: segmentViewport_def split: option.splits)
  then show ?case
    using Cons.IH by simp
qed

lemma noWords_inv: "lockstep noWords \<and> stopBound noWords"
  by (simp add: lockstep_def stopBound_def noWords_def)

lemma extractWalk_inv: "lockstep (extractWalk r) \<and> stopBound (extractWalk r)"
proof -
  define ex1 where "ex1 =
    (if \<not> scrolled r
     then (case currentLocation r of Unresolved \<Rightarrow> noWords
           | Resolved rootEl rg \<Rightarrow> segmentRange rootEl rg noWords)
     else noWords)"
  have 1: "lockstep ex1 \<and> stopBound ex1"
    unfolding ex1_def segmentRange_def
    using noWords_inv rangeLoop_inv [OF noWords_inv] by (simp split: cfiLocation.splits)
  have "extractWalk r =
     (if length (wordList ex1) = 0 then viewportScan (\<not> scrolled r) 0 (getContents r) ex1 else ex1)"
    by (simp add: extractWalk_def ex1_def Let_def)
  then show ?thesis
    using 1 viewportScan_inv [OF 1] by simp
qed


text \<open>
  Within one walk the stop is immediate: when the nodes before an image hold no image,
  the result is what those nodes alone give, marked as stopped at the length the word
  list has then (\<open>rangeLoop_stop\<close>, \<open>viewportLoop_stop\<close>).  The walk over the page
  range, moreover, does nothing once \<open>hitImage\<close> is set.
\<close>

lemma rangeLoop_after_hit: "hitImage ex \<Longrightarrow> rangeLoop rg ns ex = ex"
  by (cases ns) simp_all

lemma segmentRange_fox:
  "segmentRange foxParagraph wholeRange noWords =
     \<lparr>wordList = [js ''The'', js ''quick'', js ''fox''],
      wordElements =
        [\<lparr>node = RangeNode [0], parent = RangeNode [], word = js ''The'',
          originalWord = js ''The''\<rparr>,
         \<lparr>node = RangeNode [0], parent = RangeNode [], word = js ''quick'',
          originalWord = js ''quick''\<rparr>,
         \<lparr>node = RangeNode [0], parent = RangeNode [], word = js ''fox'',
          originalWord = js ''fox''\<rparr>],
      hitImage = True, imageStopIdx = 3\<rparr>"
  by (simp add: segmentRange_def wholeRange_def
      rangeAccept_def rangeBoundary_def rangeText_def substringFrom_def noWords_def
      pushText_pieces pieces_fox pushPieces_def clean_words foxParagraph_def tag_defs)

lemma segmentViewport_fox:
  "segmentViewport True 0 (pageOf [foxParagraph]) noWords =
     \<lparr>wordList = [js ''The'', js ''quick'', js ''fox''],
      wordElements =
        [\<lparr>node = BodyNode 0 [0, 0], parent = BodyNode 0 [0], word = js ''The'',
          originalWord = js ''The''\<rparr>,
         \<lparr>node = BodyNode 0 [0, 0], parent = BodyNode 0 [0], word = js ''quick'',
          originalWord = js ''quick''\<rparr>,
         \<lparr>node = BodyNode 0 [0, 0], parent = BodyNode 0 [0], word = js ''fox'',
          originalWord = js ''fox''\<rparr>],
      hitImage = True, imageStopIdx = 3\<rparr>"
  by (simp add: page_defs pushText_pieces pieces_fox clean_words foxParagraph_def tag_defs)

lemma extractWalk_scrolledSections:
  "wordList (extractWalk scrolledSections) =
     [js ''The'', js ''quick'', js ''fox'', js ''Hello''] \<and>
   hitImage (extractWalk scrolledSections) \<and> imageStopIdx (extractWalk scrolledSections) = 3"
  by (simp add: extractWalk_def scrolledSections_def page_defs pushText_pieces
      pieces_fox pieces_hello clean_words foxParagraph_def tag_defs)

lemma extractWalk_twoImageSections:
  "wordList (extractWalk twoImageSections) =
     [js ''The'', js ''quick'', js ''fox'', js ''Hello''] \<and>
   hitImage (extractWalk twoImageSections) \<and> imageStopIdx (extractWalk twoImageSections) = 4"
  by (simp add: extractWalk_def twoImageSections_def page_defs pushText_pieces
      pieces_fox pieces_hello clean_words foxParagraph_def tag_defs)

lemma extractWalk_twoSectionsRange:
  "extractWalk twoSectionsRange = segmentRange foxParagraph wholeRange noWords"
  by (simp add: extractWalk_def twoSectionsRange_def segmentRange_fox)

lemma extractWalk_twoSections:
  "wordList (extractWalk twoSections) = [js ''The'', js ''quick'', js ''fox'', js ''Hello''] \<and>
   hitImage (extractWalk twoSections) \<and> imageStopIdx (extractWalk twoSections) = 3"
  by (simp add: extractWalk_def twoSections_def page_defs pushText_pieces
      pieces_fox pieces_hello clean_words foxParagraph_def tag_defs)

text \<open>
  C2.  On the one region with ``The quick fox'', an image and ``jumps'', each walk gives
  the three words of the first text and the stop index 3, and nothing of ``jumps''.
  The halt does not hold of the scan of the visible sections as a whole: the
  \<^verbatim>\<open>break\<close> at the image leaves the inner loop only, and the loop over the contents
  goes on to the next document with \<open>hitImage\<close> set.  With that region in one section and
  the word ``Hello'' in the next, in scrolled flow, nodes are visited after the image and
  ``Hello'' is appended behind the stop: four words with the stop index 3.  A second
  image after ``Hello'' moves the stop index to 4.  The walk over the page range, given
  the same two sections, stops as claimed: three words, stop index 3.
\<close>

theorem scan_continues_after_image:
  "wordList (segmentRange foxParagraph wholeRange noWords) = [js ''The'', js ''quick'', js ''fox''] \<and>
   hitImage (segmentRange foxParagraph wholeRange noWords) \<and>
   imageStopIdx (segmentRange foxParagraph wholeRange noWords) = 3 \<and>
   wordList (segmentViewport True 0 (pageOf [foxParagraph]) noWords) =
     [js ''The'', js ''quick'', js ''fox''] \<and>
   hitImage (segmentViewport True 0 (pageOf [foxParagraph]) noWords) \<and>
   imageStopIdx (segmentViewport True 0 (pageOf [foxParagraph]) noWords) = 3 \<and>
   wordList (extractWalk scrolledSections) = [js ''The'', js ''quick'', js ''fox'', js ''Hello''] \<and>
   imageStopIdx (extractWalk scrolledSections) = 3 \<and>
   error (extractText (Some scrolledSections) (initialOverlay 300)) = None \<and>
   words (extractText (Some scrolledSections) (initialOverlay 300)) =
     [js ''The'', js ''quick'', js ''fox'', js ''Hello''] \<and>
   imageStopIndex (extractText (Some scrolledSections) (initialOverlay 300)) = 3 \<and>
   wordList (extractWalk twoImageSections) = [js ''The'', js ''quick'', js ''fox'', js ''Hello''] \<and>
   imageStopIdx (extractWalk twoImageSections) = 4 \<and>
   wordList (extractWalk twoSectionsRange) = [js ''The'', js ''quick'', js ''fox''] \<and>
   imageStopIdx (extractWalk twoSectionsRange) = 3"
proof -
  have c: "length (getContents scrolledSections) \<noteq> 0"
    by (simp add: scrolledSections_def)
  have "error (extractText (Some scrolledSections) (initialOverlay 300)) = None \<and>
   words (extractText (Some scrolledSections) (initialOverlay 300)) =
     [js ''The'', js ''quick'', js ''fox'', js ''Hello''] \<and>
   imageStopIndex (extractText (Some scrolledSections) (initialOverlay 300)) = 3"
    using c by (simp add: extractText_def Let_def extractWalk_scrolledSections initialOverlay_def)
  then show ?thesis
    by (simp add: segmentRange_fox segmentViewport_fox extractWalk_scrolledSections
        extractWalk_twoImageSections extractWalk_twoSectionsRange)
qed

subsection \<open>The recorded stop\<close>

lemma extractWalk_imageFirst:
  "extractWalk imageFirstRendition =
     \<lparr>wordList = [js ''Hello''],
      wordElements =
        [\<lparr>node = BodyNode 1 [0, 0], parent = BodyNode 1 [0], word = js ''Hello'',
          originalWord = js ''Hello''\<rparr>],
      hitImage = True, imageStopIdx = 0\<rparr>"
  by (simp add: extractWalk_def imageFirstRendition_def page_defs pushText_pieces
      pieces_hello clean_words tag_defs)

text \<open>
  C3, as the claim states it, fails: with an image alone in the first section and a word
  in the second, the walk meets the image before any word, the extraction succeeds with
  one word, and no stop index is recorded.
\<close>

theorem stop_at_zero_not_recorded_counterexample:
  "hitImage (extractWalk imageFirstRendition) \<and>
   imageStopIdx (extractWalk imageFirstRendition) = 0 \<and>
   error (extractText (Some imageFirstRendition) (initialOverlay 300)) = None \<and>
   words (extractText (Some imageFirstRendition) (initialOverlay 300)) = [js ''Hello''] \<and>
   imageStopIndex (extractText (Some imageFirstRendition) (initialOverlay 300)) = - 1"
proof -
  have "length (getContents imageFirstRendition) \<noteq> 0"
    by (simp add: imageFirstRendition_def paginated_def)
  then show ?thesis
    by (simp add: extractText_def Let_def extractWalk_imageFirst initialOverlay_def)
qed

text \<open>
  C3, amended.  A stop index is recorded exactly when the walk met an image after at
  least one word: \<open>imageStopIndex\<close> differs from \<open>-1\<close> if and only if there are contents,
  \<open>hitImage\<close> is set and \<open>imageStopIdx\<close> is positive; it is then that index, at most the
  number of words.  An image met at position 0 leaves it at \<open>-1\<close>.  In each walk
  \<open>hitImage\<close> is set exactly when a visited node is an image that counts as a boundary.
\<close>

theorem stop_recorded_iff_positive:
  "(imageStopIndex (extractText (Some r) st) \<noteq> - 1 \<longleftrightarrow>
      length (getContents r) \<noteq> 0 \<and> hitImage (extractWalk r) \<and> 0 < imageStopIdx (extractWalk r)) \<and>
   (imageStopIndex (extractText (Some r) st) \<noteq> - 1 \<longrightarrow>
      imageStopIndex (extractText (Some r) st) = imageStopIdx (extractWalk r) \<and>
      imageStopIndex (extractText (Some r) st) \<le> int (length (words (extractText (Some r) st)))) \<and>
   (hitImage (extractWalk r) \<and> imageStopIdx (extractWalk r) = 0 \<longrightarrow>
      imageStopIndex (extractText (Some r) st) = - 1) \<and>
   (hitImage (rangeLoop rg ns noWords) \<longleftrightarrow> (\<exists>x\<in>set ns. rangeBoundary rg x)) \<and>
   (hitImage (viewportLoop isPaginated k c ns noWords) \<longleftrightarrow>
      (\<exists>x\<in>set ns. viewportBoundary isPaginated c x))"
proof -
  have b: "stopBound (extractWalk r)"
    using extractWalk_inv by blast
  have 1: "imageStopIndex (extractText (Some r) st) \<noteq> - 1 \<longleftrightarrow>
      length (getContents r) \<noteq> 0 \<and> hitImage (extractWalk r) \<and> 0 < imageStopIdx (extractWalk r)"
    using b by (auto simp: extractText_def Let_def stopBound_def)
  have 2: "imageStopIndex (extractText (Some r) st) \<noteq> - 1 \<longrightarrow>
      imageStopIndex (extractText (Some r) st) = imageStopIdx (extractWalk r) \<and>
      imageStopIndex (extractText (Some r) st) \<le> int (length (words (extractText (Some r) st)))"
    using b by (auto simp: extractText_def Let_def stopBound_def)
  have 3: "hitImage (extractWalk r) \<and> imageStopIdx (extractWalk r) = 0 \<longrightarrow>
      imageStopIndex (extractText (Some r) st) = - 1"
    by (auto simp: extractText_def Let_def)
  have 4: "hitImage (rangeLoop rg ns noWords) \<longleftrightarrow> (\<exists>x\<in>set ns. rangeBoundary rg x)"
    by (simp add: rangeLoop_hitImage noWords_def)
  have 5: "hitImage (viewportLoop isPaginated k c ns noWords) \<longleftrightarrow>
      (\<exists>x\<in>set ns. viewportBoundary isPaginated c x)"
    by (simp add: viewportLoop_hitImage noWords_def)
  show ?thesis
    using 1 2 3 4 5 by blast
qed

theorem stop_recorded_iff_positive_witness:
  "imageStopIndex (extractText (Some foxRendition) (initialOverlay 300)) \<noteq> - 1 \<and>
   imageStopIndex (extractText (Some foxRendition) (initialOverlay 300)) = 3 \<and>
   hitImage (extractWalk foxRendition) \<and> 0 < imageStopIdx (extractWalk foxRendition) \<and>
   hitImage (extractWalk imageFirstRendition) \<and> imageStopIdx (extractWalk imageFirstRendition) = 0 \<and>
   imageStopIndex (extractText (Some imageFirstRendition) (initialOverlay 300)) = - 1"
proof -
  have h: "hitImage (extractWalk foxRendition)" "0 < imageStopIdx (extractWalk foxRendition)"
    "imageStopIdx (extractWalk foxRendition) = 3"
    by (simp_all add: extractWalk_fox)
  have h': "hitImage (extractWalk imageFirstRendition)"
    "imageStopIdx (extractWalk imageFirstRendition) = 0"
    by (simp_all add: extractWalk_imageFirst)
  have g: "length (getContents foxRendition) \<noteq> 0"
    by (simp add: foxRendition_def paginated_def)
  note fox = stop_recorded_iff_positive
    [where r = foxRendition and st = "initialOverlay 300" and rg = wholeRange and ns = "[]"
       and isPaginated = True and k = 0 and c = "pageOf []"]
  note img = stop_recorded_iff_positive
    [where r = imageFirstRendition and st = "initialOverlay 300" and rg = wholeRange and ns = "[]"
       and isPaginated = True and k = 0 and c = "pageOf []"]
  have a: "imageStopIndex (extractText (Some foxRendition) (initialOverlay 300)) \<noteq> - 1"
    using fox [THEN conjunct1] h g by simp
  have b: "imageStopIndex (extractText (Some foxRendition) (initialOverlay 300)) = 3"
    using fox [THEN conjunct2, THEN conjunct1] a h by simp
  have c: "imageStopIndex (extractText (Some imageFirstRendition) (initialOverlay 300)) = - 1"
    using img [THEN conjunct2, THEN conjunct2, THEN conjunct1] h' by simp
  show ?thesis
    using a b c h h' by simp
qed


subsection \<open>Partial text nodes\<close>

lemma substring_from_zero: "substring s 0 b = take b s"
  by (cases "b \<le> length s") (simp_all add: substring_def Let_def min_def)

lemma substringFrom_drop: "substringFrom s a = drop a s"
  by (simp add: substringFrom_def min_def)

text \<open>
  C5, as the claim states it, fails: for the text ``abcdefgh'' with start offset 2 and end
  offset 5 in the same node, the walk uses ``cde''; cutting at the start offset first and
  then keeping the first 5 characters gives ``cdefg''.
\<close>

theorem start_then_end_counterexample:
  "startContainer innerRange = [0] \<and> endContainer innerRange = [0] \<and>
   rangeText innerRange [0] (js ''abcdefgh'') = js ''cde'' \<and>
   spec_truncateBoth (js ''abcdefgh'') (startOffset innerRange) (endOffset innerRange) =
     js ''cdefg''"
  by (simp add: innerRange_def rangeText_def spec_truncateBoth_def substring_from_zero
      substringFrom_drop js_def)

text \<open>
  C5, amended.  A text node that is both the start and the end container is cut at the
  end offset first and at the start offset second, which leaves the characters from the
  start offset up to the end offset.  A node that is the end container only keeps the
  characters before the end offset; one that is the start container only keeps those from
  the start offset on; any other node keeps its text.
\<close>

theorem rangeText_end_then_start:
  "(p = startContainer rg \<and> p = endContainer rg \<longrightarrow>
      rangeText rg p txt = substringFrom (substring txt 0 (endOffset rg)) (startOffset rg) \<and>
      rangeText rg p txt = drop (startOffset rg) (take (endOffset rg) txt) \<and>
      (startOffset rg \<le> endOffset rg \<longrightarrow>
         rangeText rg p txt = substring txt (startOffset rg) (endOffset rg))) \<and>
   (p \<noteq> startContainer rg \<and> p = endContainer rg \<longrightarrow> rangeText rg p txt = take (endOffset rg) txt) \<and>
   (p = startContainer rg \<and> p \<noteq> endContainer rg \<longrightarrow> rangeText rg p txt = drop (startOffset rg) txt) \<and>
   (p \<noteq> startContainer rg \<and> p \<noteq> endContainer rg \<longrightarrow> rangeText rg p txt = txt)"
proof -
  have "startOffset rg \<le> endOffset rg \<Longrightarrow>
        drop (startOffset rg) (take (endOffset rg) txt) =
          substring txt (startOffset rg) (endOffset rg)"
    by (simp add: substring_def Let_def drop_take min_def max_def)
  then show ?thesis
    by (auto simp: rangeText_def substring_from_zero substringFrom_drop)
qed

theorem rangeText_end_then_start_witness:
  "[0] = startContainer innerRange \<and> [0] = endContainer innerRange \<and>
   startOffset innerRange \<le> endOffset innerRange \<and>
   rangeText innerRange [0] (js ''abcdefgh'') =
     drop (startOffset innerRange) (take (endOffset innerRange) (js ''abcdefgh'')) \<and>
   rangeText innerRange [0] (js ''abcdefgh'') =
     substring (js ''abcdefgh'') (startOffset innerRange) (endOffset innerRange) \<and>
   [1] \<noteq> startContainer innerRange \<and> [1] \<noteq> endContainer innerRange \<and>
   rangeText innerRange [1] (js ''abcdefgh'') = js ''abcdefgh''"
proof -
  have h: "[0] = startContainer innerRange \<and> [0] = endContainer innerRange"
    "startOffset innerRange \<le> endOffset innerRange"
    by (simp_all add: innerRange_def)
  have g: "[1] \<noteq> startContainer innerRange \<and> [1] \<noteq> endContainer innerRange"
    by (simp add: innerRange_def)
  note a = rangeText_end_then_start [of "[0]" innerRange "js ''abcdefgh''", THEN conjunct1,
      rule_format, OF h(1)]
  note b = rangeText_end_then_start [of "[1]" innerRange "js ''abcdefgh''", THEN conjunct2,
      THEN conjunct2, THEN conjunct2, rule_format, OF g]
  show ?thesis
    using h g a b by blast
qed


subsection \<open>Words and their elements\<close>

lemma extractText_coherent:
  assumes "coherent st"
  shows "coherent (extractText rend st)"
proof (cases rend)
  case None
  then show ?thesis
    using assms by (auto simp: extractText_def coherent_def)
next
  case (Some r)
  have l: "wordList (extractWalk r) = map word (wordElements (extractWalk r))"
    using extractWalk_inv [of r] by (simp add: lockstep_def)
  have b: "hitImage (extractWalk r) \<Longrightarrow> imageStopIdx (extractWalk r) \<le> int (length (wordList (extractWalk r)))"
    using extractWalk_inv [of r] by (simp add: stopBound_def)
  show ?thesis
  proof (cases "length (getContents r) = 0")
    case True
    then show ?thesis
      using assms Some by (auto simp: extractText_def coherent_def)
  next
    case False
    note contents = this
    show ?thesis
    proof (cases "length (wordList (extractWalk r)) = 0")
      case True
      then have "wordElements (extractWalk r) = []"
        using l by simp
      then show ?thesis
        using Some contents True by (auto simp: extractText_def coherent_def Let_def)
    next
      case False
      show ?thesis
      proof (cases "hitImage (extractWalk r) \<and> 0 < imageStopIdx (extractWalk r)")
        case True
        have f: "words (extractText rend st) = wordList (extractWalk r)"
          "wordElementsRef (extractText rend st) = wordElements (extractWalk r)"
          "imageStopIndex (extractText rend st) = imageStopIdx (extractWalk r)"
          "lastWordBeforeImageRef (extractText rend st) =
             arrayAt (wordElements (extractWalk r)) (imageStopIdx (extractWalk r) - 1)"
          "\<not> stoppedAtImage (extractText rend st)"
          using Some contents False True by (simp_all add: extractText_def Let_def)
        have len: "length (wordElements (extractWalk r)) = length (wordList (extractWalk r))"
          by (subst l) simp
        have "imageStopIdx (extractWalk r) \<le> int (length (wordList (extractWalk r)))"
          using b True by simp
        then have i: "imageStopIdx (extractWalk r) - 1 < int (length (wordElements (extractWalk r)))"
          using len by linarith
        have a: "arrayAt (wordElements (extractWalk r)) (imageStopIdx (extractWalk r) - 1) =
              Some (wordElements (extractWalk r) ! nat (imageStopIdx (extractWalk r) - 1))"
          using i True by (simp add: arrayAt_def)
        show ?thesis
          using l b True by (simp add: coherent_def f a)
      next
        case no: False
        have f: "words (extractText rend st) = wordList (extractWalk r)"
          "wordElementsRef (extractText rend st) = wordElements (extractWalk r)"
          "imageStopIndex (extractText rend st) = - 1"
          "\<not> stoppedAtImage (extractText rend st)"
          using Some contents False no by (simp_all add: extractText_def Let_def)
        show ?thesis
          using l by (simp add: coherent_def f)
      qed
    qed
  qed
qed

lemma perform_coherent: "coherent st \<Longrightarrow> coherent (perform c st)"
  by (cases c) (auto simp: coherent_def playback_defs Let_def)

lemma react_coherent: "coherent st \<Longrightarrow> coherent (react e st)"
proof (cases e)
  case (Open rend)
  assume "coherent st"
  then have "coherent (extractText rend st)"
    by (rule extractText_coherent)
  then show ?thesis
    using Open by (auto simp: openOverlay_def coherent_def)
next
  case (TryAgain rend)
  assume "coherent st"
  then show ?thesis
    using TryAgain by (simp add: extractText_coherent)
next
  case (Do c)
  assume "coherent st"
  then show ?thesis
    using Do by (simp add: perform_coherent)
next
  case Close
  assume "coherent st"
  then show ?thesis
    using Close by (auto simp: handleClose_def coherent_def)
qed

lemma reactAll_coherent: "coherent st \<Longrightarrow> coherent (reactAll es st)"
  by (induction es arbitrary: st) (simp_all add: react_coherent)

lemma initial_coherent: "coherent (initialOverlay w)"
  by (simp add: coherent_def initialOverlay_def)

lemma coherent_close:
  assumes "coherent st" and "closePosition st = Some e"
  shows "0 \<le> currentIndex st \<and> currentIndex st < int (length (words st)) \<and>
         word e = words st ! nat (currentIndex st)"
proof -
  from assms(2) have i: "0 \<le> currentIndex st" "currentIndex st < int (length (wordElementsRef st))"
    and e: "e = wordElementsRef st ! nat (currentIndex st)"
    by (auto simp: closePosition_def arrayAt_def split: if_splits)
  from i have "wordElementsRef st \<noteq> []" by auto
  with assms(1) have w: "words st = map word (wordElementsRef st)"
    by (simp add: coherent_def)
  from i have "nat (currentIndex st) < length (wordElementsRef st)" by simp
  then show ?thesis
    using i e w by simp
qed

lemma coherent_stop:
  assumes "coherent st" and "stopPosition st = Some e"
  shows "0 < imageStopIndex st \<and> imageStopIndex st \<le> int (length (words st)) \<and>
         word e = words st ! nat (imageStopIndex st - 1)"
proof -
  from assms(2) have s: "stoppedAtImage st" and e: "lastWordBeforeImageRef st = Some e"
    by (auto simp: stopPosition_def split: if_splits)
  from s assms(1) have p: "0 < imageStopIndex st"
    and w: "words st = map word (wordElementsRef st)"
    and b: "imageStopIndex st \<le> int (length (words st))"
    and l: "lastWordBeforeImageRef st = Some (wordElementsRef st ! nat (imageStopIndex st - 1))"
    by (auto simp: coherent_def)
  from p b w have "nat (imageStopIndex st - 1) < length (wordElementsRef st)" by simp
  then show ?thesis
    using p b e l w by simp
qed


lemma foxSession_eval:
  "reactAll foxSession (initialOverlay 300) = foxLoaded\<lparr>currentIndex := 1, isPlaying := True\<rparr>"
proof -
  have "reactAll foxSession (initialOverlay 300) = tick (togglePlay foxLoaded)"
    by (simp add: foxSession_def foxLoaded_def)
  then show ?thesis
    by (simp add: foxLoaded_eval togglePlay_def tick_def)
qed

lemma foxStopSession_eval: "reactAll foxStopSession (initialOverlay 300) = foxHalted"
  by (simp add: foxStopSession_def foxHalted_def foxLoaded_def)

text \<open>
  C10.  The walk leaves the word list and the element list in lockstep: equal lengths,
  and at every index the element carries the word kept there.  A successful extraction
  stores both lists, so the state has the same property.  Over the whole life of the
  overlay, from its initial state through any openings, retries, commands, timer firings
  and closings, the element passed to the host on close is the one of the word at
  \<open>currentIndex\<close>, and the element passed when the timer stops at an image is the one of
  the word just before the recorded stop.
\<close>

theorem words_and_elements_in_lockstep:
  "length (wordElements (extractWalk r)) = length (wordList (extractWalk r)) \<and>
   (\<forall>i<length (wordList (extractWalk r)).
      word (wordElements (extractWalk r) ! i) = wordList (extractWalk r) ! i) \<and>
   (error (extractText (Some r) st) = None \<longrightarrow>
      length (wordElementsRef (extractText (Some r) st)) =
        length (words (extractText (Some r) st)) \<and>
      (\<forall>i<length (words (extractText (Some r) st)).
         word (wordElementsRef (extractText (Some r) st) ! i) =
           words (extractText (Some r) st) ! i)) \<and>
   (closePosition (reactAll es (initialOverlay w)) = Some e \<longrightarrow>
      0 \<le> currentIndex (reactAll es (initialOverlay w)) \<and>
      currentIndex (reactAll es (initialOverlay w)) <
        int (length (words (reactAll es (initialOverlay w)))) \<and>
      word e =
        words (reactAll es (initialOverlay w)) ! nat (currentIndex (reactAll es (initialOverlay w)))) \<and>
   (stopPosition (reactAll es (initialOverlay w)) = Some e' \<longrightarrow>
      0 < imageStopIndex (reactAll es (initialOverlay w)) \<and>
      imageStopIndex (reactAll es (initialOverlay w)) \<le>
        int (length (words (reactAll es (initialOverlay w)))) \<and>
      word e' =
        words (reactAll es (initialOverlay w)) !
          nat (imageStopIndex (reactAll es (initialOverlay w)) - 1))"
proof -
  have l: "wordList (extractWalk r) = map word (wordElements (extractWalk r))"
    using extractWalk_inv [of r] by (simp add: lockstep_def)
  have 1: "length (wordElements (extractWalk r)) = length (wordList (extractWalk r))"
    by (subst l) simp
  have 2: "\<forall>i<length (wordList (extractWalk r)).
      word (wordElements (extractWalk r) ! i) = wordList (extractWalk r) ! i"
    using 1 by (subst (2) l) simp
  have 3: "error (extractText (Some r) st) = None \<longrightarrow>
      length (wordElementsRef (extractText (Some r) st)) =
        length (words (extractText (Some r) st)) \<and>
      (\<forall>i<length (words (extractText (Some r) st)).
         word (wordElementsRef (extractText (Some r) st) ! i) =
           words (extractText (Some r) st) ! i)"
  proof
    assume ok: "error (extractText (Some r) st) = None"
    then have "words (extractText (Some r) st) = wordList (extractWalk r) \<and>
          wordElementsRef (extractText (Some r) st) = wordElements (extractWalk r)"
      by (auto simp: extractText_def Let_def split: if_splits)
    then show "length (wordElementsRef (extractText (Some r) st)) =
        length (words (extractText (Some r) st)) \<and>
      (\<forall>i<length (words (extractText (Some r) st)).
         word (wordElementsRef (extractText (Some r) st) ! i) =
           words (extractText (Some r) st) ! i)"
      using 1 2 by simp
  qed
  have c: "coherent (reactAll es (initialOverlay w))"
    using initial_coherent by (rule reactAll_coherent)
  show ?thesis
    using 1 2 3 coherent_close [OF c] coherent_stop [OF c] by blast
qed

theorem words_and_elements_in_lockstep_witness:
  "error (extractText (Some foxRendition) (initialOverlay 300)) = None \<and>
   length (wordElementsRef (extractText (Some foxRendition) (initialOverlay 300))) =
     length (words (extractText (Some foxRendition) (initialOverlay 300))) \<and>
   closePosition (reactAll foxSession (initialOverlay 300)) =
     Some \<lparr>node = BodyNode 0 [0, 0], parent = BodyNode 0 [0], word = js ''quick'',
           originalWord = js ''quick''\<rparr> \<and>
   currentIndex (reactAll foxSession (initialOverlay 300)) = 1 \<and>
   words (reactAll foxSession (initialOverlay 300)) !
     nat (currentIndex (reactAll foxSession (initialOverlay 300))) = js ''quick'' \<and>
   stopPosition (reactAll foxStopSession (initialOverlay 300)) =
     Some \<lparr>node = BodyNode 0 [0, 0], parent = BodyNode 0 [0], word = js ''fox'',
           originalWord = js ''fox''\<rparr> \<and>
   imageStopIndex (reactAll foxStopSession (initialOverlay 300)) = 3 \<and>
   words (reactAll foxStopSession (initialOverlay 300)) !
     nat (imageStopIndex (reactAll foxStopSession (initialOverlay 300)) - 1) = js ''fox''"
proof -
  let ?quick = "\<lparr>node = BodyNode 0 [0, 0], parent = BodyNode 0 [0], word = js ''quick'',
           originalWord = js ''quick''\<rparr>"
  let ?fox = "\<lparr>node = BodyNode 0 [0, 0], parent = BodyNode 0 [0], word = js ''fox'',
           originalWord = js ''fox''\<rparr>"
  have ok: "error (extractText (Some foxRendition) (initialOverlay 300)) = None"
  proof -
    have "length (getContents foxRendition) \<noteq> 0"
      by (simp add: foxRendition_def paginated_def)
    then show ?thesis
      by (simp add: extractText_def Let_def extractWalk_fox)
  qed
  have cl: "closePosition (reactAll foxSession (initialOverlay 300)) = Some ?quick"
    by (simp add: foxSession_eval closePosition_def arrayAt_def foxLoaded_eval extractWalk_fox)
  have ci: "currentIndex (reactAll foxSession (initialOverlay 300)) = 1"
    by (simp add: foxSession_eval)
  have sp: "stopPosition (reactAll foxStopSession (initialOverlay 300)) = Some ?fox"
    by (simp add: foxStopSession_eval foxHalted_eval stopPosition_def foxLoaded_eval)
  have si: "imageStopIndex (reactAll foxStopSession (initialOverlay 300)) = 3"
    by (simp add: foxStopSession_eval foxHalted_eval foxLoaded_eval)
  note a = words_and_elements_in_lockstep
    [where r = foxRendition and st = "initialOverlay 300" and es = foxSession and w = 300
       and e = ?quick and e' = ?fox]
  note b = words_and_elements_in_lockstep
    [where r = foxRendition and st = "initialOverlay 300" and es = foxStopSession and w = 300
       and e = ?quick and e' = ?fox]
  have 1: "length (wordElementsRef (extractText (Some foxRendition) (initialOverlay 300))) =
     length (words (extractText (Some foxRendition) (initialOverlay 300)))"
    using a [THEN conjunct2, THEN conjunct2, THEN conjunct1] ok by blast
  have 2: "word ?quick = words (reactAll foxSession (initialOverlay 300)) !
     nat (currentIndex (reactAll foxSession (initialOverlay 300)))"
    using a [THEN conjunct2, THEN conjunct2, THEN conjunct2, THEN conjunct1] cl by blast
  have 3: "word ?fox = words (reactAll foxStopSession (initialOverlay 300)) !
     nat (imageStopIndex (reactAll foxStopSession (initialOverlay 300)) - 1)"
    using b [THEN conjunct2, THEN conjunct2, THEN conjunct2, THEN conjunct2] sp by blast
  have q2: "words (reactAll foxSession (initialOverlay 300)) !
     nat (currentIndex (reactAll foxSession (initialOverlay 300))) = js ''quick''"
    using 2 by simp
  have q3: "words (reactAll foxStopSession (initialOverlay 300)) !
     nat (imageStopIndex (reactAll foxStopSession (initialOverlay 300)) - 1) = js ''fox''"
    using 3 by simp
  show ?thesis
    using ok 1 cl ci q2 sp si q3 by blast
qed


end
